theory Spec2Isabelle
  imports Main "HOL-Library.Word"
begin

section \<open>Values of the document object model\<close>

text \<open>
  \<^verbatim>\<open>QPDFObjectHandle\<close> is the tagged value of the QPDF library. The constructors
  are named after the library's factory functions; \<open>newOperator s\<close> is the only
  value whose type code is \<^verbatim>\<open>ot_operator\<close>, and \<open>newInlineImage\<close> is the raw
  payload token the tokenizer delivers between \<^verbatim>\<open>ID\<close> and \<^verbatim>\<open>EI\<close>.
\<close>

datatype QPDFObjectHandle =
    newNull
  | newBool bool
  | newInteger int
  | newReal string
  | newString string
  | newName string
  | newArray "QPDFObjectHandle list"
  | newOperator string
  | newInlineImage string

type_synonym ObjectList = "QPDFObjectHandle list"

fun isOperator :: "QPDFObjectHandle \<Rightarrow> bool" where
  "isOperator (newOperator s) = True"
| "isOperator v = False"

section \<open>Instructions\<close>

record ContentStreamInstruction =
  operands :: ObjectList
  operator :: QPDFObjectHandle

record ContentStreamInlineImage =
  image_metadata :: ObjectList
  image_data :: QPDFObjectHandle

text \<open>
  The Python objects the parser hands out and the serializer receives. \<open>PyInstruction\<close>
  and \<open>PyInlineImageInstruction\<close> are the two bound C++ classes; \<open>PyObject v\<close> is a
  \<^verbatim>\<open>pikepdf.Object\<close> holding the handle \<open>v\<close>; \<open>PyObjectList\<close> is the bound
  \<^verbatim>\<open>std::vector<QPDFObjectHandle>\<close>; \<open>PySequence\<close> is a tuple or a list;
  \<open>PyPdfInlineImage\<close> is an instance of the Python class \<^verbatim>\<open>PdfInlineImage\<close>
  with its two constructor arguments. \<open>PyStr\<close> holds the UTF-8 bytes of the text,
  which is what \<^verbatim>\<open>std::string(s)\<close> gives.
\<close>

datatype pyobj =
    PyInstruction ContentStreamInstruction
  | PyInlineImageInstruction ContentStreamInlineImage
  | PyStr string
  | PyBytes string
  | PyInt int
  | PyObject QPDFObjectHandle
  | PyObjectList ObjectList
  | PyPdfInlineImage ObjectList QPDFObjectHandle
  | PySequence "pyobj list"

text \<open>
  Every exception and fault of the source is a value. \<open>index_error\<close>,
  \<open>value_error\<close> and \<open>type_error\<close> are the three pybind11 exceptions the file
  throws, with their messages; \<open>cast_error\<close> is what \<^verbatim>\<open>py::cast\<close> throws when
  the Python object does not hold the C++ type asked for; \<open>python_error\<close> is an
  exception raised by code outside this file; \<open>undefined_behaviour\<close> is the read
  of \<^verbatim>\<open>tokens[0]\<close> on an empty vector.
\<close>

datatype error =
    index_error string
  | value_error string
  | type_error string
  | cast_error
  | python_error string
  | undefined_behaviour

section \<open>The operand grouper\<close>

record OperandGrouper =
  whitelist :: "string set"
  tokens :: ObjectList
  inline_metadata :: ObjectList
  parsing_inline_image :: bool
  instructions :: "pyobj list"
  warning :: string
  count :: nat

text \<open>
  The constructor splits its argument at spaces with \<^verbatim>\<open>std::getline(f, s, ' ')\<close>:
  every delimiter ends a word (possibly the empty one), and characters left at the end
  of the input make a last word; an input that is exhausted yields no further word.
\<close>

fun getline_words :: "string \<Rightarrow> string \<Rightarrow> string list" where
  "getline_words s [] = (if s = [] then [] else [s])"
| "getline_words s (c # cs) =
     (if c = CHR '' '' then s # getline_words [] cs else getline_words (s @ [c]) cs)"

definition new_OperandGrouper :: "string \<Rightarrow> OperandGrouper" where
  "new_OperandGrouper operators =
     \<lparr> whitelist = set (getline_words [] operators),
       tokens = [],
       inline_metadata = [],
       parsing_inline_image = False,
       instructions = [],
       warning = [],
       count = 0 \<rparr>"

text \<open>\<^verbatim>\<open>op[0] == 'q' || op[0] == 'Q'\<close>; on the empty string \<^verbatim>\<open>op[0]\<close> is the
  terminating NUL, which is neither.\<close>

definition starts_with_q :: "string \<Rightarrow> bool" where
  "starts_with_q op = (case op of [] \<Rightarrow> False | c # cs \<Rightarrow> c = CHR ''q'' \<or> c = CHR ''Q'')"

text \<open>The whitelist test of \<^verbatim>\<open>handleObject\<close>: true when the operator is discarded.\<close>

definition discarded :: "string set \<Rightarrow> string \<Rightarrow> bool" where
  "discarded wl op =
     (if wl \<noteq> {} then
        (if starts_with_q op then ''q'' \<notin> wl \<and> ''Q'' \<notin> wl
         else op \<notin> wl)
      else False)"

text \<open>
  \<^verbatim>\<open>OperandGrouper::handleObject\<close>, one branch of the source per branch here. The
  only fault is \<^verbatim>\<open>this->tokens[0]\<close> at \<^verbatim>\<open>EI\<close> with an empty buffer.
\<close>

definition handleObject :: "OperandGrouper \<Rightarrow> QPDFObjectHandle \<Rightarrow> error + OperandGrouper" where
  "handleObject g0 obj =
     (let g = g0\<lparr>count := count g0 + 1\<rparr> in
      case obj of
        newOperator op \<Rightarrow>
          if discarded (whitelist g) op then Inr (g\<lparr>tokens := []\<rparr>)
          else if op = ''BI'' then
            Inr (g\<lparr>parsing_inline_image := True, tokens := []\<rparr>)
          else if parsing_inline_image g then
            (if op = ''ID'' then
               Inr (g\<lparr>inline_metadata := tokens g, tokens := []\<rparr>)
             else if op = ''EI'' then
               (case tokens g of
                  [] \<Rightarrow> Inl undefined_behaviour
                | t # ts \<Rightarrow>
                    Inr (g\<lparr>instructions := instructions g @
                              [PyInlineImageInstruction
                                 \<lparr>image_metadata = inline_metadata g, image_data = t\<rparr>],
                            inline_metadata := [],
                            tokens := []\<rparr>))
             else Inr (g\<lparr>tokens := []\<rparr>))
          else
            Inr (g\<lparr>instructions := instructions g @
                      [PyInstruction \<lparr>operands = tokens g, operator = obj\<rparr>],
                    tokens := []\<rparr>)
      | _ \<Rightarrow> Inr (g\<lparr>tokens := tokens g @ [obj]\<rparr>))"

text \<open>The parser's loop: one \<^verbatim>\<open>handleObject\<close> call per token, in order; a fault
  ends the parse.\<close>

fun handleObjects :: "OperandGrouper \<Rightarrow> QPDFObjectHandle list \<Rightarrow> error + OperandGrouper" where
  "handleObjects g [] = Inr g"
| "handleObjects g (obj # objs) =
     (case handleObject g obj of
        Inl e \<Rightarrow> Inl e
      | Inr g' \<Rightarrow> handleObjects g' objs)"

definition handleEOF :: "OperandGrouper \<Rightarrow> OperandGrouper" where
  "handleEOF g = (if tokens g \<noteq> [] then g\<lparr>warning := ''Unexpected end of stream''\<rparr> else g)"

definition getInstructions :: "OperandGrouper \<Rightarrow> pyobj list" where
  "getInstructions g = instructions g"

definition getWarning :: "OperandGrouper \<Rightarrow> string" where
  "getWarning g = warning g"

section \<open>Indexed access\<close>

text \<open>
  What this file takes from outside it, as parameters: the QPDF library's
  \<^verbatim>\<open>unparseBinary\<close>; \<^verbatim>\<open>objecthandle_encode\<close>, which turns an operand-like
  Python value into a handle or raises; \<open>to_python\<close>, the binding's conversion
  of a handle to a Python value (\<^verbatim>\<open>py::cast\<close> of a \<^verbatim>\<open>QPDFObjectHandle\<close>);
  \<open>sequence_protocol\<close>, the items Python's sequence protocol gives for an object
  that is not a tuple or a list, or the exception it raises; the Python class
  \<^verbatim>\<open>PdfInlineImage\<close>, called with \<^verbatim>\<open>image_data\<close> and \<^verbatim>\<open>image_object\<close>,
  and its method \<^verbatim>\<open>unparse\<close>.
\<close>

record runtime =
  unparseBinary :: "QPDFObjectHandle \<Rightarrow> string"
  objecthandle_encode :: "pyobj \<Rightarrow> error + QPDFObjectHandle"
  to_python :: "QPDFObjectHandle \<Rightarrow> pyobj"
  sequence_protocol :: "pyobj \<Rightarrow> error + pyobj list"
  PdfInlineImage :: "QPDFObjectHandle \<Rightarrow> ObjectList \<Rightarrow> error + pyobj"
  PdfInlineImage_unparse :: "pyobj \<Rightarrow> error + string"

text \<open>\<^verbatim>\<open>std::to_string\<close> and \<^verbatim>\<open>operator<<\<close> on integers: decimal digits.\<close>

definition digit :: "nat \<Rightarrow> char" where
  "digit d = ''0123456789'' ! d"

fun to_string_nat :: "nat \<Rightarrow> string" where
  "to_string_nat n =
     (if n < 10 then [digit n] else to_string_nat (n div 10) @ [digit (n mod 10)])"

declare to_string_nat.simps [simp del]

definition to_string :: "int \<Rightarrow> string" where
  "to_string i = (if i < 0 then CHR ''-'' # to_string_nat (nat (- i)) else to_string_nat (nat i))"

text \<open>The properties \<^verbatim>\<open>operator\<close> and \<^verbatim>\<open>operands\<close> of the two classes.\<close>

definition csi_operator :: "runtime \<Rightarrow> ContentStreamInstruction \<Rightarrow> pyobj" where
  "csi_operator rt csi = to_python rt (operator csi)"

definition csi_operands :: "ContentStreamInstruction \<Rightarrow> pyobj" where
  "csi_operands csi = PyObjectList (operands csi)"

definition get_inline_image :: "runtime \<Rightarrow> ContentStreamInlineImage \<Rightarrow> error + pyobj" where
  "get_inline_image rt csii = PdfInlineImage rt (image_data csii) (image_metadata csii)"

definition get_operands :: "runtime \<Rightarrow> ContentStreamInlineImage \<Rightarrow> error + pyobj" where
  "get_operands rt csii =
     (case get_inline_image rt csii of
        Inl e \<Rightarrow> Inl e
      | Inr iimage \<Rightarrow> Inr (PySequence [iimage]))"

definition get_operator :: "ContentStreamInlineImage \<Rightarrow> QPDFObjectHandle" where
  "get_operator csii = newOperator ''INLINE IMAGE''"

definition csii_operator :: "runtime \<Rightarrow> ContentStreamInlineImage \<Rightarrow> pyobj" where
  "csii_operator rt csii = to_python rt (newOperator ''INLINE IMAGE'')"

definition csii_operands :: "runtime \<Rightarrow> ContentStreamInlineImage \<Rightarrow> error + pyobj" where
  "csii_operands rt csii = get_operands rt csii"

text \<open>\<^verbatim>\<open>__getitem__\<close> and \<^verbatim>\<open>__len__\<close>; the index is a C++ \<^verbatim>\<open>int\<close>.\<close>

definition csi_getitem :: "runtime \<Rightarrow> ContentStreamInstruction \<Rightarrow> 32 word \<Rightarrow> error + pyobj" where
  "csi_getitem rt csi index =
     (if index = 0 \<or> index = - 2 then Inr (PyObjectList (operands csi))
      else if index = 1 \<or> index = - 1 then Inr (to_python rt (operator csi))
      else Inl (index_error (''Invalid index '' @ to_string (sint index))))"

definition csi_len :: "ContentStreamInstruction \<Rightarrow> int" where
  "csi_len csi = 2"

definition csii_getitem :: "runtime \<Rightarrow> ContentStreamInlineImage \<Rightarrow> 32 word \<Rightarrow> error + pyobj" where
  "csii_getitem rt csii index =
     (if index = 0 \<or> index = - 2 then get_operands rt csii
      else if index = 1 \<or> index = - 1 then Inr (to_python rt (get_operator csii))
      else Inl (index_error (''Invalid index '' @ to_string (sint index))))"

definition csii_len :: "ContentStreamInlineImage \<Rightarrow> int" where
  "csii_len csii = 2"

section \<open>The serializer\<close>

text \<open>The two stream insertion operators, on the bytes written so far.\<close>

definition write_csi :: "runtime \<Rightarrow> string \<Rightarrow> ContentStreamInstruction \<Rightarrow> string" where
  "write_csi rt os csi =
     foldl (\<lambda>os obj. os @ unparseBinary rt obj @ '' '') os (operands csi)
       @ unparseBinary rt (operator csi)"

definition write_csii :: "runtime \<Rightarrow> string \<Rightarrow> ContentStreamInlineImage \<Rightarrow> error + string" where
  "write_csii rt os csii =
     (case get_inline_image rt csii of
        Inl e \<Rightarrow> Inl e
      | Inr iimage \<Rightarrow>
          (case PdfInlineImage_unparse rt iimage of
             Inl e \<Rightarrow> Inl e
           | Inr ii_bytes \<Rightarrow> Inr (os @ ii_bytes)))"

text \<open>\<^verbatim>\<open>std::string(s).c_str()\<close> passed on as a C string: the bytes before the
  first NUL.\<close>

definition c_str :: "string \<Rightarrow> string" where
  "c_str s = takeWhile (\<lambda>c. c \<noteq> CHR 0x00) s"

text \<open>\<^verbatim>\<open>getOperatorValue\<close>; both call sites hold an operator.\<close>

fun getOperatorValue :: "QPDFObjectHandle \<Rightarrow> string" where
  "getOperatorValue (newOperator s) = s"

text \<open>\<^verbatim>\<open>operator_.cast<QPDFObjectHandle>()\<close>: the handle a \<^verbatim>\<open>pikepdf.Object\<close>
  holds; any other Python object makes the cast throw, as the two casts that the loop
  catches do.\<close>

definition cast_QPDFObjectHandle :: "pyobj \<Rightarrow> error + QPDFObjectHandle" where
  "cast_QPDFObjectHandle x = (case x of PyObject v \<Rightarrow> Inr v | _ \<Rightarrow> Inl cast_error)"

text \<open>\<^verbatim>\<open>py::sequence\<close> over an object: a tuple or list has its items, anything
  else is asked through Python's sequence protocol.\<close>

definition as_sequence :: "runtime \<Rightarrow> pyobj \<Rightarrow> error + pyobj list" where
  "as_sequence rt x = (case x of PySequence xs \<Rightarrow> Inr xs | _ \<Rightarrow> sequence_protocol rt x)"

text \<open>Lines 187 to 202: the operator of a generic pair. \<open>n\<close> is the \<^verbatim>\<open>uint\<close>
  counter of the loop.\<close>

definition resolve_operator :: "32 word \<Rightarrow> pyobj \<Rightarrow> error + QPDFObjectHandle" where
  "resolve_operator n operator_py =
     (case operator_py of
        PyStr s \<Rightarrow> Inr (newOperator (c_str s))
      | PyBytes s \<Rightarrow> Inr (newOperator (c_str s))
      | _ \<Rightarrow>
          (case cast_QPDFObjectHandle operator_py of
             Inl e \<Rightarrow> Inl e
           | Inr op \<Rightarrow>
               if \<not> isOperator op then
                 Inl (type_error (''At content stream instruction '' @ to_string_nat (unat n)
                        @ '', the operator is not of type pikepdf.Operator, bytes or str''))
               else Inr op))"

text \<open>Lines 217 to 220: the loop over the operands of a generic pair.\<close>

fun write_operands :: "runtime \<Rightarrow> string \<Rightarrow> pyobj list \<Rightarrow> error + string" where
  "write_operands rt ss [] = Inr ss"
| "write_operands rt ss (operand # rest) =
     (case objecthandle_encode rt operand of
        Inl e \<Rightarrow> Inl e
      | Inr obj \<Rightarrow> write_operands rt (ss @ unparseBinary rt obj @ '' '') rest)"

text \<open>Lines 177 to 222: the fallback path for one item, on the bytes written so far.\<close>

definition unparse_fallback :: "runtime \<Rightarrow> 32 word \<Rightarrow> string \<Rightarrow> pyobj \<Rightarrow> error + string" where
  "unparse_fallback rt n ss item =
     (case as_sequence rt item of
        Inl e \<Rightarrow> Inl e
      | Inr operands_op \<Rightarrow>
          if length operands_op \<noteq> 2 then
            Inl (value_error (''Wrong number of operands at content stream instruction ''
                   @ to_string_nat (unat n) @ ''; expected 2''))
          else
            (case resolve_operator n (operands_op ! 1) of
               Inl e \<Rightarrow> Inl e
             | Inr op \<Rightarrow>
                 (case as_sequence rt (operands_op ! 0) of
                    Inl e \<Rightarrow> Inl e
                  | Inr operand_seq \<Rightarrow>
                      if getOperatorValue op = ''INLINE IMAGE'' then
                        (case operand_seq of
                           [] \<Rightarrow> Inl (python_error ''IndexError'')
                         | iimage # _ \<Rightarrow>
                             (case iimage of
                                PyPdfInlineImage md d \<Rightarrow>
                                  (case PdfInlineImage_unparse rt iimage of
                                     Inl e \<Rightarrow> Inl e
                                   | Inr iimage_unparsed_bytes \<Rightarrow>
                                       Inr (ss @ iimage_unparsed_bytes))
                              | _ \<Rightarrow>
                                  Inl (value_error
                                         (''Expected PdfInlineImage as operand for instruction ''
                                            @ to_string_nat (unat n)))))
                      else
                        (case write_operands rt ss operand_seq of
                           Inl e \<Rightarrow> Inl e
                         | Inr ss' \<Rightarrow> Inr (ss' @ unparseBinary rt op)))))"

text \<open>The loop of \<^verbatim>\<open>unparse_content_stream\<close> over the items the iterable yields,
  with its three variables: the counter \<open>n\<close>, the buffer \<open>ss\<close> and \<open>delim\<close>.\<close>

definition newline :: string where
  "newline = [CHR 0x0A]"

fun unparse_loop :: "runtime \<Rightarrow> 32 word \<Rightarrow> string \<Rightarrow> string \<Rightarrow> pyobj list \<Rightarrow> error + string" where
  "unparse_loop rt n ss delim [] = Inr ss"
| "unparse_loop rt n ss delim (item # items) =
     (case item of
        PyInstruction csi \<Rightarrow>
          unparse_loop rt n (write_csi rt (ss @ delim) csi) newline items
      | PyInlineImageInstruction csii \<Rightarrow>
          (case write_csii rt (ss @ delim) csii of
             Inl e \<Rightarrow> Inl e
           | Inr ss' \<Rightarrow> unparse_loop rt n ss' newline items)
      | _ \<Rightarrow>
          (case unparse_fallback rt n (ss @ delim) item of
             Inl e \<Rightarrow> Inl e
           | Inr ss' \<Rightarrow> unparse_loop rt (n + 1) ss' newline items))"

definition unparse_content_stream :: "runtime \<Rightarrow> pyobj list \<Rightarrow> error + string" where
  "unparse_content_stream rt contentstream = unparse_loop rt 0 [] [] contentstream"

section \<open>Token streams made of runs\<close>

text \<open>
  A run is a list of operands and the name of the operator that ends it. These three
  definitions say what a well-formed stream is and what it should be grouped into;
  they are not taken from the code.
\<close>

definition run_tokens :: "ObjectList \<times> string \<Rightarrow> ObjectList" where
  "run_tokens r = fst r @ [newOperator (snd r)]"

definition run_instruction :: "ObjectList \<times> string \<Rightarrow> pyobj" where
  "run_instruction r = PyInstruction \<lparr>operands = fst r, operator = newOperator (snd r)\<rparr>"

definition well_formed_run :: "ObjectList \<times> string \<Rightarrow> bool" where
  "well_formed_run r =
     (list_all (\<lambda>v. \<not> isOperator v) (fst r) \<and> snd r \<notin> {''BI'', ''ID'', ''EI''})"

section \<open>What the serializer should write\<close>

text \<open>
  The definitions of this section state the claims; they are not taken from the code.
  \<open>join\<close> puts a separator between the members of a list and nowhere else.
  \<open>run_bytes\<close> is the rendering of one run: every operand followed by one space,
  then the operator. \<open>render_tokens\<close> is the whitespace-normalized rendering of a
  token stream: one space after an operand, one newline after an operator, nothing
  after the last token. \<open>serialize_grouped\<close> is the round trip: group the stream
  with an empty whitelist, signal the end of the stream, serialize the instructions.
\<close>

fun join :: "string \<Rightarrow> string list \<Rightarrow> string" where
  "join sep [] = []"
| "join sep [x] = x"
| "join sep (x # y # ys) = x @ sep @ join sep (y # ys)"

definition run_bytes :: "(QPDFObjectHandle \<Rightarrow> string) \<Rightarrow> ObjectList \<times> string \<Rightarrow> string" where
  "run_bytes ub r = concat (map (\<lambda>v. ub v @ '' '') (fst r)) @ ub (newOperator (snd r))"

definition inline_image_marker :: "QPDFObjectHandle \<Rightarrow> bool" where
  "inline_image_marker t =
     (t = newOperator ''BI'' \<or> t = newOperator ''ID'' \<or> t = newOperator ''EI'')"

fun render_tokens :: "(QPDFObjectHandle \<Rightarrow> string) \<Rightarrow> ObjectList \<Rightarrow> string" where
  "render_tokens ub [] = []"
| "render_tokens ub [t] = ub t"
| "render_tokens ub (t # u # ts) =
     ub t @ (if isOperator t then newline else '' '') @ render_tokens ub (u # ts)"

definition serialize_grouped :: "runtime \<Rightarrow> ObjectList \<Rightarrow> error + string" where
  "serialize_grouped rt T =
     (case handleObjects (new_OperandGrouper []) T of
        Inl e \<Rightarrow> Inl e
      | Inr g \<Rightarrow> unparse_content_stream rt (getInstructions (handleEOF g)))"

text \<open>An item takes the fallback path when it is neither of the two bound classes;
  \<open>fallback_count\<close> counts such items.\<close>

fun is_native :: "pyobj \<Rightarrow> bool" where
  "is_native (PyInstruction csi) = True"
| "is_native (PyInlineImageInstruction csii) = True"
| "is_native x = False"

definition fallback_count :: "pyobj list \<Rightarrow> nat" where
  "fallback_count items = length (filter (\<lambda>x. \<not> is_native x) items)"

text \<open>
  What one item writes, taken alone on an empty buffer, with the counter \<open>n\<close> it is
  met with; and the pieces of a whole input, item by item, the counter going up after
  each fallback item. The first failure ends the call.
\<close>

definition item_bytes :: "runtime \<Rightarrow> 32 word \<Rightarrow> pyobj \<Rightarrow> error + string" where
  "item_bytes rt n item =
     (case item of
        PyInstruction csi \<Rightarrow> Inr (write_csi rt [] csi)
      | PyInlineImageInstruction csii \<Rightarrow> write_csii rt [] csii
      | _ \<Rightarrow> unparse_fallback rt n [] item)"

fun item_pieces :: "runtime \<Rightarrow> 32 word \<Rightarrow> pyobj list \<Rightarrow> error + string list" where
  "item_pieces rt n [] = Inr []"
| "item_pieces rt n (item # items) =
     (case item_bytes rt n item of
        Inl e \<Rightarrow> Inl e
      | Inr b \<Rightarrow>
          (case item_pieces rt (if is_native item then n else n + 1) items of
             Inl e \<Rightarrow> Inl e
           | Inr bs \<Rightarrow> Inr (b # bs)))"

text \<open>The operator of a generic pair is text when it is a \<^verbatim>\<open>str\<close> or a
  \<^verbatim>\<open>bytes\<close>; \<open>not_operator_message\<close> is the message of line 198, with the
  counter printed in decimal.\<close>

fun is_text :: "pyobj \<Rightarrow> bool" where
  "is_text (PyStr s) = True"
| "is_text (PyBytes s) = True"
| "is_text x = False"

definition not_operator_message :: "nat \<Rightarrow> string" where
  "not_operator_message k =
     ''At content stream instruction '' @ to_string_nat k
       @ '', the operator is not of type pikepdf.Operator, bytes or str''"

text \<open>
  One concrete choice of the outside parameters, used only to evaluate the functions at
  concrete inputs: operators and names unparse to their text, integers to their decimal
  digits, strings in parentheses; text and integers encode to strings and integers;
  only tuples and lists are sequences; an inline image unparses to BI, its metadata,
  ID, its data and EI.
\<close>

fun sample_unparseBinary :: "QPDFObjectHandle \<Rightarrow> string" where
  "sample_unparseBinary (newOperator s) = s"
| "sample_unparseBinary (newName s) = s"
| "sample_unparseBinary (newInteger i) = to_string i"
| "sample_unparseBinary (newString s) = ''('' @ s @ '')''"
| "sample_unparseBinary (newInlineImage s) = s"
| "sample_unparseBinary v = ''null''"

fun sample_encode :: "pyobj \<Rightarrow> error + QPDFObjectHandle" where
  "sample_encode (PyObject v) = Inr v"
| "sample_encode (PyStr s) = Inr (newString s)"
| "sample_encode (PyBytes s) = Inr (newString s)"
| "sample_encode (PyInt i) = Inr (newInteger i)"
| "sample_encode x = Inl (python_error ''TypeError'')"

fun sample_iimage_unparse :: "pyobj \<Rightarrow> error + string" where
  "sample_iimage_unparse (PyPdfInlineImage md d) =
     Inr (''BI '' @ concat (map (\<lambda>v. sample_unparseBinary v @ '' '') md)
            @ ''ID '' @ sample_unparseBinary d @ '' EI'')"
| "sample_iimage_unparse x = Inl (python_error ''AttributeError'')"

definition sample_runtime :: runtime where
  "sample_runtime =
     \<lparr> unparseBinary = sample_unparseBinary,
       objecthandle_encode = sample_encode,
       to_python = PyObject,
       sequence_protocol = (\<lambda>x. Inl (python_error ''TypeError'')),
       PdfInlineImage = (\<lambda>d md. Inr (PyPdfInlineImage md d)),
       PdfInlineImage_unparse = sample_iimage_unparse \<rparr>"

section \<open>Properties of the grouper\<close>

lemma handleObject_operand:
  "\<not> isOperator obj \<Longrightarrow>
   handleObject g obj = Inr (g\<lparr>count := count g + 1, tokens := tokens g @ [obj]\<rparr>)"
  by (cases obj) (simp_all add: handleObject_def Let_def)

lemma handleObject_operator_plain:
  "whitelist g = {} \<Longrightarrow> \<not> parsing_inline_image g \<Longrightarrow> op \<noteq> ''BI'' \<Longrightarrow>
   handleObject g (newOperator op) =
     Inr (g\<lparr>count := count g + 1,
            instructions := instructions g @
              [PyInstruction \<lparr>operands = tokens g, operator = newOperator op\<rparr>],
            tokens := []\<rparr>)"
  by (simp add: handleObject_def Let_def discarded_def)

lemma handleObjects_append:
  "handleObjects g (xs @ ys) =
     (case handleObjects g xs of Inl e \<Rightarrow> Inl e | Inr g' \<Rightarrow> handleObjects g' ys)"
  by (induction xs arbitrary: g) (auto split: sum.splits)

lemma handleObjects_operands:
  "\<forall>v\<in>set vs. \<not> isOperator v \<Longrightarrow>
   handleObjects g vs =
     Inr (g\<lparr>count := count g + length vs, tokens := tokens g @ vs\<rparr>)"
proof (induction vs arbitrary: g)
  case Nil
  show ?case by simp
next
  case (Cons v vs)
  then show ?case by (simp add: handleObject_operand)
qed

lemma handleObjects_run:
  assumes "whitelist g = {}" "\<not> parsing_inline_image g" "tokens g = []"
    and "list_all (\<lambda>v. \<not> isOperator v) (fst r)" "snd r \<noteq> ''BI''"
  shows "handleObjects g (run_tokens r) =
           Inr (g\<lparr>count := count g + length (run_tokens r),
                  instructions := instructions g @ [run_instruction r]\<rparr>)"
proof -
  let ?g1 = "g\<lparr>count := count g + length (fst r), tokens := tokens g @ fst r\<rparr>"
  have 1: "handleObjects g (fst r) = Inr ?g1"
    using assms(4) by (simp add: handleObjects_operands list_all_iff)
  have 2: "handleObject ?g1 (newOperator (snd r)) =
             Inr (g\<lparr>count := count g + length (run_tokens r),
                    instructions := instructions g @ [run_instruction r]\<rparr>)"
    using assms(1,2,3,5)
    by (simp add: handleObject_operator_plain run_tokens_def run_instruction_def)
  show ?thesis
    unfolding run_tokens_def handleObjects_append 1
    using 2 by (simp add: run_tokens_def)
qed

lemma handleObjects_runs:
  assumes "whitelist g = {}" "\<not> parsing_inline_image g" "tokens g = []"
    and "list_all (\<lambda>r. list_all (\<lambda>v. \<not> isOperator v) (fst r) \<and> snd r \<noteq> ''BI'') rs"
  shows "handleObjects g (concat (map run_tokens rs)) =
           Inr (g\<lparr>count := count g + length (concat (map run_tokens rs)),
                  instructions := instructions g @ map run_instruction rs\<rparr>)"
  using assms
proof (induction rs arbitrary: g)
  case Nil
  show ?case by simp
next
  case (Cons r rs)
  let ?g1 = "g\<lparr>count := count g + length (run_tokens r),
                instructions := instructions g @ [run_instruction r]\<rparr>"
  have step: "handleObjects g (run_tokens r) = Inr ?g1"
    using Cons.prems by (simp add: handleObjects_run)
  have rest: "handleObjects ?g1 (concat (map run_tokens rs)) =
                Inr (?g1\<lparr>count := count ?g1 + length (concat (map run_tokens rs)),
                        instructions := instructions ?g1 @ map run_instruction rs\<rparr>)"
    using Cons.prems by (intro Cons.IH) simp_all
  show ?case
    by (simp add: handleObjects_append step rest add.assoc)
qed

lemma count_operators_runs:
  "list_all (\<lambda>r. list_all (\<lambda>v. \<not> isOperator v) (fst r)) rs \<Longrightarrow>
   length (filter isOperator (concat (map run_tokens rs))) = length rs"
proof (induction rs)
  case Nil
  show ?case by simp
next
  case (Cons r rs)
  have "filter isOperator (fst r) = []"
    using Cons.prems by (simp add: list_all_iff filter_empty_conv)
  with Cons show ?case by (simp add: run_tokens_def)
qed

text \<open>
  C2. A token stream that is a concatenation of well-formed runs (operands that are not
  operators, then an operator other than BI, ID and EI), fed to a grouper with an empty
  whitelist from its initial state, gives one Instruction per run, in order, holding
  exactly the run's operands and its operator; the pending buffer is empty afterwards
  and there are as many instructions as operator tokens in the stream.
\<close>

theorem grouper_one_instruction_per_operator:
  assumes "list_all well_formed_run rs"
  shows "handleObjects (new_OperandGrouper []) (concat (map run_tokens rs)) =
           Inr ((new_OperandGrouper [])
                  \<lparr>count := length (concat (map run_tokens rs)),
                   instructions := map run_instruction rs\<rparr>)
         \<and> length (map run_instruction rs) =
             length (filter isOperator (concat (map run_tokens rs)))"
proof -
  let ?g0 = "new_OperandGrouper []"
  have wf: "list_all (\<lambda>r. list_all (\<lambda>v. \<not> isOperator v) (fst r) \<and> snd r \<noteq> ''BI'') rs"
    using assms by (simp add: list_all_iff well_formed_run_def)
  have "handleObjects ?g0 (concat (map run_tokens rs)) =
          Inr (?g0\<lparr>count := count ?g0 + length (concat (map run_tokens rs)),
                   instructions := instructions ?g0 @ map run_instruction rs\<rparr>)"
    by (rule handleObjects_runs) (simp_all add: new_OperandGrouper_def wf)
  moreover have "length rs = length (filter isOperator (concat (map run_tokens rs)))"
    using wf by (simp add: count_operators_runs list_all_iff)
  ultimately show ?thesis
    by (simp add: new_OperandGrouper_def)
qed

theorem grouper_one_instruction_per_operator_witness:
  "handleObjects (new_OperandGrouper [])
     [newInteger 1, newInteger 2, newOperator ''m'', newOperator ''h'',
      newName ''/F1'', newInteger 12, newOperator ''Tf''] =
   Inr \<lparr>whitelist = {}, tokens = [], inline_metadata = [], parsing_inline_image = False,
        instructions =
          [PyInstruction \<lparr>operands = [newInteger 1, newInteger 2], operator = newOperator ''m''\<rparr>,
           PyInstruction \<lparr>operands = [], operator = newOperator ''h''\<rparr>,
           PyInstruction \<lparr>operands = [newName ''/F1'', newInteger 12],
                          operator = newOperator ''Tf''\<rparr>],
        warning = [], count = 7\<rparr>
   \<and> length (filter isOperator
        [newInteger 1, newInteger 2, newOperator ''m'', newOperator ''h'',
         newName ''/F1'', newInteger 12, newOperator ''Tf'']) = 3"
  using grouper_one_instruction_per_operator
    [of "[([newInteger 1, newInteger 2], ''m''), ([], ''h''),
          ([newName ''/F1'', newInteger 12], ''Tf'')]"]
  by (simp add: well_formed_run_def run_tokens_def run_instruction_def new_OperandGrouper_def)

lemma discarded_empty: "discarded {} op = False"
  by (simp add: discarded_def)

lemma handleObject_BI:
  "\<not> discarded (whitelist g) ''BI'' \<Longrightarrow>
   handleObject g (newOperator ''BI'') =
     Inr (g\<lparr>count := count g + 1, parsing_inline_image := True, tokens := []\<rparr>)"
  by (simp add: handleObject_def Let_def)

lemma handleObject_ID:
  "\<not> discarded (whitelist g) ''ID'' \<Longrightarrow> parsing_inline_image g \<Longrightarrow>
   handleObject g (newOperator ''ID'') =
     Inr (g\<lparr>count := count g + 1, inline_metadata := tokens g, tokens := []\<rparr>)"
  by (simp add: handleObject_def Let_def)

lemma handleObject_EI:
  "\<not> discarded (whitelist g) ''EI'' \<Longrightarrow> parsing_inline_image g \<Longrightarrow> tokens g = t # ts \<Longrightarrow>
   handleObject g (newOperator ''EI'') =
     Inr (g\<lparr>count := count g + 1,
            instructions := instructions g @
              [PyInlineImageInstruction \<lparr>image_metadata = inline_metadata g, image_data = t\<rparr>],
            inline_metadata := [],
            tokens := []\<rparr>)"
  by (simp add: handleObject_def Let_def)

text \<open>
  C3 (as amended). Fed from the initial state with an empty whitelist, the tokens
  m1, m2, BI, d1, ID, payload, EI (m1, m2, d1 and payload not operators) give exactly
  one InlineImageInstruction; its metadata is [d1], the tokens between BI and ID, and
  its image data is payload. The tokens m1 and m2 before BI are dropped when BI clears
  the buffer.
\<close>

theorem inline_image_metadata_between_BI_and_ID:
  assumes "\<not> isOperator m1" "\<not> isOperator m2" "\<not> isOperator d1" "\<not> isOperator payload"
  shows "handleObjects (new_OperandGrouper [])
           [m1, m2, newOperator ''BI'', d1, newOperator ''ID'', payload, newOperator ''EI''] =
         Inr ((new_OperandGrouper [])
                \<lparr>count := 7,
                 parsing_inline_image := True,
                 instructions :=
                   [PyInlineImageInstruction \<lparr>image_metadata = [d1], image_data = payload\<rparr>]\<rparr>)"
  using assms
  by (simp add: handleObject_operand handleObject_BI handleObject_ID handleObject_EI
        new_OperandGrouper_def discarded_empty)

theorem inline_image_metadata_between_BI_and_ID_witness:
  "handleObjects (new_OperandGrouper [])
     [newName ''/W'', newInteger 1, newOperator ''BI'', newName ''/Filter'',
      newOperator ''ID'', newInlineImage ''abc'', newOperator ''EI''] =
   Inr \<lparr>whitelist = {}, tokens = [], inline_metadata = [], parsing_inline_image = True,
        instructions =
          [PyInlineImageInstruction
             \<lparr>image_metadata = [newName ''/Filter''], image_data = newInlineImage ''abc''\<rparr>],
        warning = [], count = 7\<rparr>"
  using inline_image_metadata_between_BI_and_ID
    [of "newName ''/W''" "newInteger 1" "newName ''/Filter''" "newInlineImage ''abc''"]
  by (simp add: new_OperandGrouper_def)

theorem inline_image_metadata_counterexample:
  "map_sum id getInstructions
     (handleObjects (new_OperandGrouper [])
        [newName ''/W'', newInteger 1, newOperator ''BI'', newName ''/Filter'',
         newOperator ''ID'', newInlineImage ''abc'', newOperator ''EI'']) \<noteq>
   Inr [PyInlineImageInstruction
          \<lparr>image_metadata = [newName ''/W'', newInteger 1],
           image_data = newInlineImage ''abc''\<rparr>]"
  by (simp add: handleObject_def Let_def discarded_def new_OperandGrouper_def getInstructions_def)

lemma handleObject_sticky:
  assumes "parsing_inline_image g" "handleObject g obj = Inr g'"
  shows "parsing_inline_image g' \<and> whitelist g' = whitelist g \<and>
         (\<exists>iis. instructions g' = instructions g @ map PyInlineImageInstruction iis)"
proof (cases obj)
  case (newOperator op)
  show ?thesis
  proof (cases "\<not> discarded (whitelist g) op \<and> op \<noteq> ''BI'' \<and> op \<noteq> ''ID'' \<and> op = ''EI''")
    case True
    then obtain t ts where "tokens g = t # ts"
      using assms newOperator
      by (cases "tokens g") (auto simp: handleObject_def Let_def)
    then have "instructions g' = instructions g @
        map PyInlineImageInstruction [\<lparr>image_metadata = inline_metadata g, image_data = t\<rparr>]"
      and "parsing_inline_image g'" and "whitelist g' = whitelist g"
      using assms newOperator True by (auto simp: handleObject_def Let_def)
    then show ?thesis by blast
  next
    case False
    then have "instructions g' = instructions g @ map PyInlineImageInstruction []"
      and "parsing_inline_image g'" and "whitelist g' = whitelist g"
      using assms newOperator by (auto simp: handleObject_def Let_def split: if_splits)
    then show ?thesis by blast
  qed
qed (use assms in \<open>auto simp: handleObject_def Let_def\<close>)

lemma handleObjects_sticky:
  assumes "parsing_inline_image g" "handleObjects g objs = Inr g'"
  shows "parsing_inline_image g' \<and> whitelist g' = whitelist g \<and>
         (\<exists>iis. instructions g' = instructions g @ map PyInlineImageInstruction iis)"
  using assms
proof (induction objs arbitrary: g)
  case Nil
  then have "instructions g' = instructions g @ map PyInlineImageInstruction []" by simp
  with Nil show ?case by fastforce
next
  case (Cons obj objs)
  from Cons.prems(2) obtain g1 where 1: "handleObject g obj = Inr g1"
    and 2: "handleObjects g1 objs = Inr g'"
    by (auto split: sum.splits)
  from handleObject_sticky [OF Cons.prems(1) 1] obtain iis1 where
    s1: "parsing_inline_image g1" "whitelist g1 = whitelist g"
      "instructions g1 = instructions g @ map PyInlineImageInstruction iis1"
    by blast
  from Cons.IH [OF s1(1) 2] obtain iis2 where
    s2: "parsing_inline_image g'" "whitelist g' = whitelist g1"
      "instructions g' = instructions g1 @ map PyInlineImageInstruction iis2"
    by blast
  have "instructions g' = instructions g @ map PyInlineImageInstruction (iis1 @ iis2)"
    using s1 s2 by simp
  with s1 s2 show ?case by metis
qed

lemma handleObject_swallowed:
  assumes "parsing_inline_image g" "op \<noteq> ''ID''" "op \<noteq> ''EI''"
  shows "handleObject g (newOperator op) = Inr (g\<lparr>count := count g + 1, tokens := []\<rparr>)"
proof -
  have "g\<lparr>count := count g + 1, parsing_inline_image := True, tokens := []\<rparr>
          = g\<lparr>count := count g + 1, tokens := []\<rparr>"
    using assms(1) by simp
  then show ?thesis
    using assms by (simp add: handleObject_def Let_def)
qed

text \<open>
  C4. From the moment a BI operator has passed the whitelist, the flag
  \<open>parsing_inline_image\<close> holds in every later state of the parse; every instruction
  added after it is an InlineImageInstruction; and in every later state an operator
  other than ID and EI only clears the pending buffer.
\<close>

theorem inline_image_flag_never_reset:
  assumes "\<not> discarded (whitelist g0) ''BI''"
    and "handleObjects g0 (newOperator ''BI'' # objs) = Inr g"
  shows "parsing_inline_image g
         \<and> (\<exists>iis. instructions g = instructions g0 @ map PyInlineImageInstruction iis)
         \<and> (\<forall>op. op \<noteq> ''ID'' \<and> op \<noteq> ''EI'' \<longrightarrow>
               handleObject g (newOperator op) = Inr (g\<lparr>count := count g + 1, tokens := []\<rparr>))"
proof -
  let ?g1 = "g0\<lparr>count := count g0 + 1, parsing_inline_image := True, tokens := []\<rparr>"
  have "handleObjects ?g1 objs = Inr g"
    using assms by (simp add: handleObject_BI)
  from handleObjects_sticky [OF _ this]
  have "parsing_inline_image g"
    and "\<exists>iis. instructions g = instructions g0 @ map PyInlineImageInstruction iis"
    by simp_all
  then show ?thesis
    by (simp add: handleObject_swallowed)
qed

theorem inline_image_flag_never_reset_witness:
  "handleObjects (new_OperandGrouper [])
     [newOperator ''BI'', newName ''/W'', newOperator ''ID'', newInlineImage ''abc'',
      newOperator ''EI'', newInteger 1, newOperator ''re''] =
   Inr \<lparr>whitelist = {}, tokens = [], inline_metadata = [], parsing_inline_image = True,
        instructions =
          [PyInlineImageInstruction
             \<lparr>image_metadata = [newName ''/W''], image_data = newInlineImage ''abc''\<rparr>],
        warning = [], count = 7\<rparr>
   \<and> handleObject
       \<lparr>whitelist = {}, tokens = [], inline_metadata = [], parsing_inline_image = True,
        instructions =
          [PyInlineImageInstruction
             \<lparr>image_metadata = [newName ''/W''], image_data = newInlineImage ''abc''\<rparr>],
        warning = [], count = 7\<rparr>
       (newOperator ''re'') =
     Inr \<lparr>whitelist = {}, tokens = [], inline_metadata = [], parsing_inline_image = True,
        instructions =
          [PyInlineImageInstruction
             \<lparr>image_metadata = [newName ''/W''], image_data = newInlineImage ''abc''\<rparr>],
        warning = [], count = 8\<rparr>"
proof -
  let ?g = "\<lparr>whitelist = {}, tokens = [], inline_metadata = [], parsing_inline_image = True,
        instructions =
          [PyInlineImageInstruction
             \<lparr>image_metadata = [newName ''/W''], image_data = newInlineImage ''abc''\<rparr>],
        warning = [], count = 7\<rparr>"
  have run: "handleObjects (new_OperandGrouper [])
     [newOperator ''BI'', newName ''/W'', newOperator ''ID'', newInlineImage ''abc'',
      newOperator ''EI'', newInteger 1, newOperator ''re''] = Inr ?g"
    by (simp add: new_OperandGrouper_def handleObject_operand handleObject_BI handleObject_ID
          handleObject_EI handleObject_swallowed discarded_empty)
  have "\<not> discarded (whitelist (new_OperandGrouper [])) ''BI''"
    by (simp add: new_OperandGrouper_def discarded_empty)
  from inline_image_flag_never_reset [OF this run]
  have "handleObject ?g (newOperator ''re'') = Inr (?g\<lparr>count := count ?g + 1, tokens := []\<rparr>)"
    by simp
  with run show ?thesis by simp
qed

text \<open>
  C5. With a non-empty whitelist, an operator that is not in the whitelist (and, when
  its name starts with q or Q, with neither q nor Q in the whitelist) emits nothing and
  clears the pending buffer. An operator whose name starts with q or Q passes the
  filter whenever q or Q is in the whitelist: outside an inline image it is emitted with
  the pending operands.
\<close>

theorem whitelist_filter:
  "(whitelist g \<noteq> {} \<and> op \<notin> whitelist g
      \<and> (starts_with_q op \<longrightarrow> ''q'' \<notin> whitelist g \<and> ''Q'' \<notin> whitelist g)
    \<longrightarrow> handleObject g (newOperator op) = Inr (g\<lparr>count := count g + 1, tokens := []\<rparr>))
   \<and> (starts_with_q op \<and> (''q'' \<in> whitelist g \<or> ''Q'' \<in> whitelist g)
    \<longrightarrow> handleObject g (newOperator op) =
          (if parsing_inline_image g then Inr (g\<lparr>count := count g + 1, tokens := []\<rparr>)
           else Inr (g\<lparr>count := count g + 1,
                      instructions := instructions g @
                        [PyInstruction \<lparr>operands = tokens g, operator = newOperator op\<rparr>],
                      tokens := []\<rparr>)))"
proof (intro conjI impI)
  assume "whitelist g \<noteq> {} \<and> op \<notin> whitelist g
      \<and> (starts_with_q op \<longrightarrow> ''q'' \<notin> whitelist g \<and> ''Q'' \<notin> whitelist g)"
  then have "discarded (whitelist g) op"
    by (simp add: discarded_def)
  then show "handleObject g (newOperator op) = Inr (g\<lparr>count := count g + 1, tokens := []\<rparr>)"
    by (simp add: handleObject_def Let_def)
next
  assume a: "starts_with_q op \<and> (''q'' \<in> whitelist g \<or> ''Q'' \<in> whitelist g)"
  then have keep: "\<not> discarded (whitelist g) op"
    by (auto simp: discarded_def)
  from a have names: "op \<noteq> ''BI''" "op \<noteq> ''ID''" "op \<noteq> ''EI''"
    by (auto simp: starts_with_q_def)
  show "handleObject g (newOperator op) =
          (if parsing_inline_image g then Inr (g\<lparr>count := count g + 1, tokens := []\<rparr>)
           else Inr (g\<lparr>count := count g + 1,
                      instructions := instructions g @
                        [PyInstruction \<lparr>operands = tokens g, operator = newOperator op\<rparr>],
                      tokens := []\<rparr>))"
    using keep names by (simp add: handleObject_def Let_def)
qed

theorem whitelist_filter_witness:
  "handleObject
     ((new_OperandGrouper ''q Tj'')\<lparr>tokens := [newInteger 1], instructions := []\<rparr>)
     (newOperator ''re'') =
   Inr \<lparr>whitelist = {''q'', ''Tj''}, tokens = [], inline_metadata = [],
        parsing_inline_image = False, instructions = [], warning = [], count = 1\<rparr>
   \<and> handleObject
     ((new_OperandGrouper ''q Tj'')\<lparr>tokens := [newInteger 1], instructions := []\<rparr>)
     (newOperator ''Q'') =
   Inr \<lparr>whitelist = {''q'', ''Tj''}, tokens = [], inline_metadata = [],
        parsing_inline_image = False,
        instructions = [PyInstruction \<lparr>operands = [newInteger 1], operator = newOperator ''Q''\<rparr>],
        warning = [], count = 1\<rparr>
   \<and> handleObject
     ((new_OperandGrouper ''re Tj'')\<lparr>tokens := [newInteger 1], instructions := []\<rparr>)
     (newOperator ''q'') =
   Inr \<lparr>whitelist = {''re'', ''Tj''}, tokens = [], inline_metadata = [],
        parsing_inline_image = False, instructions = [], warning = [], count = 1\<rparr>"
  using whitelist_filter
      [of "(new_OperandGrouper ''q Tj'')\<lparr>tokens := [newInteger 1], instructions := []\<rparr>" "''re''"]
    whitelist_filter
      [of "(new_OperandGrouper ''q Tj'')\<lparr>tokens := [newInteger 1], instructions := []\<rparr>" "''Q''"]
    whitelist_filter
      [of "(new_OperandGrouper ''re Tj'')\<lparr>tokens := [newInteger 1], instructions := []\<rparr>" "''q''"]
  by (simp add: new_OperandGrouper_def starts_with_q_def)

lemma handleObject_warning:
  "handleObject g obj = Inr g' \<Longrightarrow> warning g' = warning g"
  by (cases obj) (auto simp: handleObject_def Let_def split: if_splits list.splits)

lemma handleObjects_warning:
  "handleObjects g objs = Inr g' \<Longrightarrow> warning g' = warning g"
proof (induction objs arbitrary: g)
  case Nil
  then show ?case by simp
next
  case (Cons obj objs)
  then show ?case by (auto split: sum.splits dest: handleObject_warning)
qed

text \<open>
  C6. After any parse from the initial state, \<open>handleEOF\<close> leaves the warning
  "Unexpected end of stream" exactly when the pending buffer is not empty, and leaves
  it unset otherwise; it is a total function (it raises nothing) and it does not change
  the instructions.
\<close>

theorem handleEOF_warning_iff_pending:
  assumes "handleObjects (new_OperandGrouper operators) objs = Inr g"
  shows "(getWarning (handleEOF g) = ''Unexpected end of stream'') = (tokens g \<noteq> [])
         \<and> getWarning (handleEOF g) = (if tokens g \<noteq> [] then ''Unexpected end of stream'' else [])
         \<and> getInstructions (handleEOF g) = getInstructions g"
proof -
  have "warning g = []"
    using handleObjects_warning [OF assms] by (simp add: new_OperandGrouper_def)
  then show ?thesis
    by (simp add: handleEOF_def getWarning_def getInstructions_def)
qed

theorem handleEOF_warning_iff_pending_witness:
  "getWarning (handleEOF
     \<lparr>whitelist = {}, tokens = [newInteger 1], inline_metadata = [],
      parsing_inline_image = False,
      instructions = [PyInstruction \<lparr>operands = [], operator = newOperator ''h''\<rparr>],
      warning = [], count = 2\<rparr>) = ''Unexpected end of stream''
   \<and> getInstructions (handleEOF
     \<lparr>whitelist = {}, tokens = [newInteger 1], inline_metadata = [],
      parsing_inline_image = False,
      instructions = [PyInstruction \<lparr>operands = [], operator = newOperator ''h''\<rparr>],
      warning = [], count = 2\<rparr>) =
       [PyInstruction \<lparr>operands = [], operator = newOperator ''h''\<rparr>]
   \<and> getWarning (handleEOF
     \<lparr>whitelist = {}, tokens = [], inline_metadata = [],
      parsing_inline_image = False,
      instructions = [PyInstruction \<lparr>operands = [], operator = newOperator ''h''\<rparr>],
      warning = [], count = 1\<rparr>) = []"
  using handleEOF_warning_iff_pending
      [of "[]" "[newOperator ''h'', newInteger 1]"
          "\<lparr>whitelist = {}, tokens = [newInteger 1], inline_metadata = [],
            parsing_inline_image = False,
            instructions = [PyInstruction \<lparr>operands = [], operator = newOperator ''h''\<rparr>],
            warning = [], count = 2\<rparr>"]
    handleEOF_warning_iff_pending
      [of "[]" "[newOperator ''h'']"
          "\<lparr>whitelist = {}, tokens = [], inline_metadata = [],
            parsing_inline_image = False,
            instructions = [PyInstruction \<lparr>operands = [], operator = newOperator ''h''\<rparr>],
            warning = [], count = 1\<rparr>"]
  by (simp add: new_OperandGrouper_def handleObject_operand handleObject_operator_plain
        getInstructions_def)

section \<open>Properties of indexed access\<close>

text \<open>
  C7. For both instruction classes, index 0 and index -2 give what the property
  \<open>operands\<close> gives, index 1 and index -1 give what the property \<open>operator\<close>
  gives, the length is 2 whatever the operands are, and every other index (a C++ int)
  fails with an index error naming the index.
\<close>

theorem indexed_access:
  "csi_getitem rt csi 0 = Inr (csi_operands csi)
   \<and> csi_getitem rt csi (- 2) = Inr (csi_operands csi)
   \<and> csi_getitem rt csi 1 = Inr (csi_operator rt csi)
   \<and> csi_getitem rt csi (- 1) = Inr (csi_operator rt csi)
   \<and> csi_len csi = 2
   \<and> csii_getitem rt csii 0 = csii_operands rt csii
   \<and> csii_getitem rt csii (- 2) = csii_operands rt csii
   \<and> csii_getitem rt csii 1 = Inr (csii_operator rt csii)
   \<and> csii_getitem rt csii (- 1) = Inr (csii_operator rt csii)
   \<and> csii_len csii = 2
   \<and> (index \<noteq> 0 \<and> index \<noteq> 1 \<and> index \<noteq> - 1 \<and> index \<noteq> - 2 \<longrightarrow>
        csi_getitem rt csi index = Inl (index_error (''Invalid index '' @ to_string (sint index)))
        \<and> csii_getitem rt csii index =
            Inl (index_error (''Invalid index '' @ to_string (sint index))))"
  by (simp add: csi_getitem_def csii_getitem_def csi_operands_def csi_operator_def
        csii_operands_def csii_operator_def get_operator_def csi_len_def csii_len_def)

theorem indexed_access_witness:
  "csi_getitem sample_runtime \<lparr>operands = [newInteger 1], operator = newOperator ''w''\<rparr> 2
     = Inl (index_error ''Invalid index 2'')
   \<and> csii_getitem sample_runtime
        \<lparr>image_metadata = [], image_data = newInlineImage ''abc''\<rparr> (- 3)
     = Inl (index_error ''Invalid index -3'')
   \<and> csi_getitem sample_runtime \<lparr>operands = [newInteger 1], operator = newOperator ''w''\<rparr> (- 2)
     = Inr (PyObjectList [newInteger 1])
   \<and> csii_getitem sample_runtime
        \<lparr>image_metadata = [], image_data = newInlineImage ''abc''\<rparr> 0
     = Inr (PySequence [PyPdfInlineImage [] (newInlineImage ''abc'')])"
  using indexed_access
      [of sample_runtime "\<lparr>operands = [newInteger 1], operator = newOperator ''w''\<rparr>"
          "\<lparr>image_metadata = [], image_data = newInlineImage ''abc''\<rparr>" 2]
    indexed_access
      [of sample_runtime "\<lparr>operands = [newInteger 1], operator = newOperator ''w''\<rparr>"
          "\<lparr>image_metadata = [], image_data = newInlineImage ''abc''\<rparr>" "- 3"]
  by (simp add: to_string_def to_string_nat.simps digit_def csi_operands_def csii_operands_def
        get_operands_def get_inline_image_def sample_runtime_def)

section \<open>Properties of the serializer\<close>

lemma foldl_write:
  "foldl (\<lambda>os obj. os @ f obj @ sep) os xs = os @ concat (map (\<lambda>obj. f obj @ sep) xs)"
  by (induction xs arbitrary: os) simp_all

lemma write_csi_eq:
  "write_csi rt os csi =
     os @ concat (map (\<lambda>obj. unparseBinary rt obj @ '' '') (operands csi))
        @ unparseBinary rt (operator csi)"
  by (simp add: write_csi_def foldl_write)

lemma write_csi_prefix: "write_csi rt os csi = os @ write_csi rt [] csi"
  by (simp add: write_csi_eq)

lemma unparse_loop_instructions:
  "unparse_loop rt n ss delim (map PyInstruction csis) =
     Inr (ss @ (if csis = [] then [] else delim @ join newline (map (write_csi rt []) csis)))"
proof (induction csis arbitrary: ss delim)
  case Nil
  show ?case by simp
next
  case (Cons csi csis)
  show ?case
  proof (cases csis)
    case Nil
    then show ?thesis by (simp add: write_csi_prefix [of rt "ss @ delim"])
  next
    case (Cons c cs)
    with Cons.IH [of "write_csi rt (ss @ delim) csi" newline]
    show ?thesis by (simp add: write_csi_prefix [of rt "ss @ delim"])
  qed
qed

lemma write_csii_prefix:
  "write_csii rt os csii =
     (case write_csii rt [] csii of Inl e \<Rightarrow> Inl e | Inr b \<Rightarrow> Inr (os @ b))"
  by (simp add: write_csii_def split: sum.splits)

lemma write_operands_prefix:
  "write_operands rt ss xs =
     (case write_operands rt [] xs of Inl e \<Rightarrow> Inl e | Inr b \<Rightarrow> Inr (ss @ b))"
proof (induction xs arbitrary: ss)
  case Nil
  show ?case by simp
next
  case (Cons x xs)
  show ?case
  proof (cases "objecthandle_encode rt x")
    case (Inl e)
    then show ?thesis by simp
  next
    case (Inr obj)
    show ?thesis
      using Cons.IH [of "ss @ unparseBinary rt obj @ '' ''"]
        Cons.IH [of "unparseBinary rt obj @ '' ''"]
      by (simp add: Inr split: sum.splits)
  qed
qed

lemma unparse_fallback_prefix:
  "unparse_fallback rt n ss item =
     (case unparse_fallback rt n [] item of Inl e \<Rightarrow> Inl e | Inr b \<Rightarrow> Inr (ss @ b))"
proof -
  have w: "\<And>xs. write_operands rt ss xs =
     (case write_operands rt [] xs of Inl e \<Rightarrow> Inl e | Inr b \<Rightarrow> Inr (ss @ b))"
    by (rule write_operands_prefix)
  show ?thesis
    unfolding unparse_fallback_def
    by (simp add: w split: sum.splits list.splits pyobj.splits)
qed

lemma unparse_step:
  "unparse_loop rt n ss delim (item # items) =
     (case item_bytes rt n item of
        Inl e \<Rightarrow> Inl e
      | Inr b \<Rightarrow>
          unparse_loop rt (if is_native item then n else n + 1) (ss @ delim @ b) newline items)"
proof (cases item)
  case (PyInstruction csi)
  then show ?thesis
    by (simp add: item_bytes_def write_csi_prefix [of rt "ss @ delim"])
next
  case (PyInlineImageInstruction csii)
  then show ?thesis
    by (simp add: item_bytes_def write_csii_prefix [of rt "ss @ delim"] split: sum.splits)
qed (simp_all add: item_bytes_def unparse_fallback_prefix [of rt n "ss @ delim"] split: sum.splits)

lemma unparse_loop_pieces:
  "unparse_loop rt n ss delim items =
     (case item_pieces rt n items of
        Inl e \<Rightarrow> Inl e
      | Inr bs \<Rightarrow> Inr (ss @ (if bs = [] then [] else delim @ join newline bs)))"
proof (induction items arbitrary: n ss delim)
  case Nil
  show ?case by simp
next
  case (Cons item items)
  show ?case
  proof (cases "item_bytes rt n item")
    case (Inl e)
    then show ?thesis by (simp add: unparse_step del: unparse_loop.simps)
  next
    case b: (Inr b)
    show ?thesis
    proof (cases "item_pieces rt (if is_native item then n else n + 1) items")
      case (Inl e)
      then show ?thesis
        using Cons.IH [of "if is_native item then n else n + 1" "ss @ delim @ b" newline]
        by (simp add: unparse_step b del: unparse_loop.simps)
    next
      case (Inr bs)
      then show ?thesis
        using Cons.IH [of "if is_native item then n else n + 1" "ss @ delim @ b" newline]
        by (cases bs) (simp_all add: unparse_step b del: unparse_loop.simps)
    qed
  qed
qed

text \<open>
  C8. Writing a native Instruction appends each operand's bytes followed by one space
  and then the operator's bytes, with nothing after them. The serialization of any
  input, whatever the kinds of its items (native Instructions, native inline images,
  generic pairs), is the pieces its items write joined by one newline, with no newline
  before the first or after the last, or the first failure of an item; for a list of
  native Instructions these pieces are their renderings; the empty input gives the
  empty buffer.
\<close>

theorem serialization_format:
  "write_csi rt os csi =
     os @ concat (map (\<lambda>obj. unparseBinary rt obj @ '' '') (operands csi))
        @ unparseBinary rt (operator csi)
   \<and> unparse_content_stream rt (map PyInstruction csis) =
       Inr (join newline (map (write_csi rt []) csis))
   \<and> unparse_content_stream rt [] = Inr []
   \<and> unparse_content_stream rt items =
       (case item_pieces rt 0 items of
          Inl e \<Rightarrow> Inl e
        | Inr bs \<Rightarrow> Inr (join newline bs))"
proof (intro conjI)
  show "unparse_content_stream rt items =
       (case item_pieces rt 0 items of
          Inl e \<Rightarrow> Inl e
        | Inr bs \<Rightarrow> Inr (join newline bs))"
    unfolding unparse_content_stream_def unparse_loop_pieces
    by (simp split: sum.splits)
qed (simp_all add: write_csi_eq [of rt os] unparse_content_stream_def unparse_loop_instructions)

theorem serialization_format_witness:
  "unparse_content_stream sample_runtime
     [PyInstruction \<lparr>operands = [newInteger 1], operator = newOperator ''w''\<rparr>,
      PyInlineImageInstruction
        \<lparr>image_metadata = [newName ''/W'', newInteger 1], image_data = newInlineImage ''abc''\<rparr>,
      PySequence [PySequence [PyInt 5], PyStr ''g''],
      PySequence [PySequence [PyPdfInlineImage [] (newInlineImage ''xy'')],
                  PyBytes ''INLINE IMAGE''],
      PyInstruction \<lparr>operands = [], operator = newOperator ''S''\<rparr>] =
   Inr (''1 w'' @ newline @ ''BI /W 1 ID abc EI'' @ newline @ ''5 g'' @ newline
          @ ''BI ID xy EI'' @ newline @ ''S'')"
  using serialization_format
    [of sample_runtime "[]" "\<lparr>operands = [], operator = newOperator ''S''\<rparr>" "[]"
        "[PyInstruction \<lparr>operands = [newInteger 1], operator = newOperator ''w''\<rparr>,
          PyInlineImageInstruction
            \<lparr>image_metadata = [newName ''/W'', newInteger 1],
             image_data = newInlineImage ''abc''\<rparr>,
          PySequence [PySequence [PyInt 5], PyStr ''g''],
          PySequence [PySequence [PyPdfInlineImage [] (newInlineImage ''xy'')],
                      PyBytes ''INLINE IMAGE''],
          PyInstruction \<lparr>operands = [], operator = newOperator ''S''\<rparr>]"]
  by (simp add: item_bytes_def write_csi_def write_csii_def get_inline_image_def
        unparse_fallback_def as_sequence_def resolve_operator_def c_str_def
        sample_runtime_def to_string_def to_string_nat.simps digit_def)

lemma unparse_loop_append:
  "unparse_loop rt n ss delim (pre @ rest) =
     (case unparse_loop rt n ss delim pre of
        Inl e \<Rightarrow> Inl e
      | Inr ss' \<Rightarrow>
          unparse_loop rt (n + of_nat (fallback_count pre)) ss'
            (if pre = [] then delim else newline) rest)"
proof (induction pre arbitrary: n ss delim)
  case Nil
  show ?case by (simp add: fallback_count_def)
next
  case (Cons item pre)
  show ?case
    by (cases item)
       (simp_all add: Cons.IH fallback_count_def add.assoc split: sum.splits)
qed





lemma c_str_no_nul: "CHR 0x00 \<notin> set s \<Longrightarrow> c_str s = s"
  unfolding c_str_def by (rule takeWhile_eq_all_conv [THEN iffD2]) auto

lemma unparse_fallback_resolve_fails:
  "resolve_operator n x = Inl e \<Longrightarrow>
   unparse_fallback rt n ss (PySequence [operand_list, x]) = Inl e"
  by (simp add: unparse_fallback_def as_sequence_def)

lemma unparse_loop_resolve_fails:
  "resolve_operator n x = Inl e \<Longrightarrow>
   unparse_loop rt n ss delim (PySequence [operand_list, x] # post) = Inl e"
  by (simp add: unparse_fallback_resolve_fails)

lemma unparse_content_stream_at:
  assumes "unparse_content_stream rt pre = Inr out" "fallback_count pre < 2 ^ 32"
  shows "\<exists>n delim. unat (n :: 32 word) = fallback_count pre \<and>
           unparse_content_stream rt (pre @ item # post) =
             unparse_loop rt n out delim (item # post)"
proof -
  have "unat (of_nat (fallback_count pre) :: 32 word) = fallback_count pre"
    using assms(2) by (intro of_nat_inverse) simp_all
  moreover have "unparse_loop rt 0 [] [] (pre @ item # post) =
      unparse_loop rt (of_nat (fallback_count pre)) out
        (if pre = [] then [] else newline) (item # post)"
    using assms(1)
    by (simp add: unparse_content_stream_def unparse_loop_append del: unparse_loop.simps)
  ultimately show ?thesis
    unfolding unparse_content_stream_def by blast
qed

lemma resolve_operator_not_operator:
  "\<not> isOperator v \<Longrightarrow>
   resolve_operator n (PyObject v) = Inl (type_error (not_operator_message (unat n)))"
  by (simp add: resolve_operator_def cast_QPDFObjectHandle_def not_operator_message_def)

lemma resolve_operator_cast_fails:
  "\<not> is_text x \<Longrightarrow> \<forall>v. x \<noteq> PyObject v \<Longrightarrow> resolve_operator n x = Inl cast_error"
  by (cases x) (simp_all add: resolve_operator_def cast_QPDFObjectHandle_def)

lemma unparse_fallback_text_operator:
  assumes "x = PyStr s \<or> x = PyBytes s" "c_str s \<noteq> ''INLINE IMAGE''"
    and "write_operands rt ss operand_list = Inr ss'"
  shows "unparse_fallback rt n ss (PySequence [PySequence operand_list, x]) =
           Inr (ss' @ unparseBinary rt (newOperator (c_str s)))"
  using assms by (auto simp: unparse_fallback_def as_sequence_def resolve_operator_def)

text \<open>
  Operator resolution in the fallback path, as the code has it. A str or a bytes value
  gives the operator named by its bytes as a C string (all of them when there is no
  NUL), and serialization goes on: with operands that encode, the pair writes the
  operands, each followed by a space, then the operator; so the pair (["a", "b"], "Tj")
  serializes. An Object holding an operator is used as it is. An Object holding anything
  else makes the call fail with the type error of line 198. Any other Python value makes
  the cast of line 195 throw before the test of line 196 is reached.
\<close>

theorem fallback_operator_resolution:
  assumes "unparse_content_stream rt pre = Inr out" and "fallback_count pre < 2 ^ 32"
  shows "resolve_operator n (PyStr s) = Inr (newOperator (c_str s))
    \<and> resolve_operator n (PyBytes s) = Inr (newOperator (c_str s))
    \<and> (CHR 0x00 \<notin> set s \<longrightarrow> c_str s = s)
    \<and> (c_str s \<noteq> ''INLINE IMAGE'' \<and> write_operands rt ss operand_list = Inr ss' \<longrightarrow>
         unparse_fallback rt n ss (PySequence [PySequence operand_list, PyStr s]) =
           Inr (ss' @ unparseBinary rt (newOperator (c_str s)))
         \<and> unparse_fallback rt n ss (PySequence [PySequence operand_list, PyBytes s]) =
           Inr (ss' @ unparseBinary rt (newOperator (c_str s))))
    \<and> (objecthandle_encode rt (PyStr ''a'') = Inr va
          \<and> objecthandle_encode rt (PyStr ''b'') = Inr vb \<longrightarrow>
         unparse_content_stream rt
           [PySequence [PySequence [PyStr ''a'', PyStr ''b''], PyStr ''Tj'']] =
           Inr (unparseBinary rt va @ '' '' @ unparseBinary rt vb @ '' ''
                  @ unparseBinary rt (newOperator ''Tj'')))
    \<and> (isOperator v \<longrightarrow> resolve_operator n (PyObject v) = Inr v)
    \<and> (\<not> isOperator v \<longrightarrow>
         unparse_content_stream rt (pre @ PySequence [operand_seq, PyObject v] # post) =
           Inl (type_error (not_operator_message (fallback_count pre))))
    \<and> (\<not> is_text x \<and> (\<forall>w. x \<noteq> PyObject w) \<longrightarrow>
         unparse_content_stream rt (pre @ PySequence [operand_seq, x] # post) =
           Inl cast_error)"
proof (intro conjI impI)
  show "resolve_operator n (PyStr s) = Inr (newOperator (c_str s))"
    by (simp add: resolve_operator_def)
  show "resolve_operator n (PyBytes s) = Inr (newOperator (c_str s))"
    by (simp add: resolve_operator_def)
  show "c_str s = s" if "CHR 0x00 \<notin> set s"
    using that by (rule c_str_no_nul)
  show "unparse_fallback rt n ss (PySequence [PySequence operand_list, PyStr s]) =
           Inr (ss' @ unparseBinary rt (newOperator (c_str s)))"
    if "c_str s \<noteq> ''INLINE IMAGE'' \<and> write_operands rt ss operand_list = Inr ss'"
    using that by (simp add: unparse_fallback_text_operator)
  show "unparse_fallback rt n ss (PySequence [PySequence operand_list, PyBytes s]) =
           Inr (ss' @ unparseBinary rt (newOperator (c_str s)))"
    if "c_str s \<noteq> ''INLINE IMAGE'' \<and> write_operands rt ss operand_list = Inr ss'"
    using that by (simp add: unparse_fallback_text_operator)
  show "unparse_content_stream rt
           [PySequence [PySequence [PyStr ''a'', PyStr ''b''], PyStr ''Tj'']] =
           Inr (unparseBinary rt va @ '' '' @ unparseBinary rt vb @ '' ''
                  @ unparseBinary rt (newOperator ''Tj''))"
    if "objecthandle_encode rt (PyStr ''a'') = Inr va
          \<and> objecthandle_encode rt (PyStr ''b'') = Inr vb"
    using that
    by (simp add: unparse_content_stream_def unparse_fallback_def as_sequence_def
          resolve_operator_def c_str_def)
  show "resolve_operator n (PyObject v) = Inr v" if "isOperator v"
    using that by (simp add: resolve_operator_def cast_QPDFObjectHandle_def)
  show "unparse_content_stream rt (pre @ PySequence [operand_seq, PyObject v] # post) =
           Inl (type_error (not_operator_message (fallback_count pre)))"
    if "\<not> isOperator v"
  proof -
    obtain k :: "32 word" and delim where k: "unat k = fallback_count pre"
      and "unparse_content_stream rt (pre @ PySequence [operand_seq, PyObject v] # post) =
             unparse_loop rt k out delim (PySequence [operand_seq, PyObject v] # post)"
      using unparse_content_stream_at [OF assms] by blast
    then show ?thesis
      using resolve_operator_not_operator [OF that, of k]
      by (simp add: unparse_loop_resolve_fails del: unparse_loop.simps)
  qed
  show "unparse_content_stream rt (pre @ PySequence [operand_seq, x] # post) = Inl cast_error"
    if "\<not> is_text x \<and> (\<forall>w. x \<noteq> PyObject w)"
  proof -
    obtain k :: "32 word" and delim where
      "unparse_content_stream rt (pre @ PySequence [operand_seq, x] # post) =
             unparse_loop rt k out delim (PySequence [operand_seq, x] # post)"
      using unparse_content_stream_at [OF assms] by blast
    then show ?thesis
      using resolve_operator_cast_fails [of x k] that
      by (simp add: unparse_loop_resolve_fails del: unparse_loop.simps)
  qed
qed

theorem fallback_operator_resolution_witness:
  "unparse_content_stream sample_runtime
     [PySequence [PySequence [PyStr ''a'', PyStr ''b''], PyStr ''Tj'']] = Inr ''(a) (b) Tj''
   \<and> unparse_content_stream sample_runtime
       [PyInstruction \<lparr>operands = [], operator = newOperator ''h''\<rparr>,
        PySequence [PySequence [], PyObject (newName ''/X'')]] =
     Inl (type_error
            ''At content stream instruction 0, the operator is not of type pikepdf.Operator, bytes or str'')
   \<and> unparse_content_stream sample_runtime
       [PyInstruction \<lparr>operands = [], operator = newOperator ''h''\<rparr>,
        PySequence [PySequence [], PySequence []]] = Inl cast_error
   \<and> unparse_fallback sample_runtime 0 [] (PySequence [PySequence [PyInt 5], PyBytes ''w'']) =
     Inr ''5 w''"
  using fallback_operator_resolution
    [of sample_runtime
        "[PyInstruction \<lparr>operands = [], operator = newOperator ''h''\<rparr>]" "''h''"
        0 "''w''" "[]" "[PyInt 5]" "''5 ''" "newString ''a''" "newString ''b''"
        "newName ''/X''" "PySequence []" "[]" "PySequence []"]
  by (simp add: unparse_content_stream_def write_csi_def sample_runtime_def fallback_count_def
        not_operator_message_def to_string_def to_string_nat.simps digit_def c_str_def)

text \<open>
  C10. The second member of a pair that is neither a str, a bytes nor an operator is to
  be refused with the type error "At content stream instruction N, the operator is not
  of type pikepdf.Operator, bytes or str". The code does so for an Object that holds no
  operator, as for the name /X here; for the pair ([], 42) the unguarded cast of line
  195 throws first, and the call fails with the cast error instead.
\<close>

theorem fallback_operator_cast_failure:
  "unparse_content_stream sample_runtime [PySequence [PySequence [], PyInt 42]] = Inl cast_error
   \<and> unparse_content_stream sample_runtime [PySequence [PySequence [], PyInt 42]] \<noteq>
       Inl (type_error
              ''At content stream instruction 0, the operator is not of type pikepdf.Operator, bytes or str'')
   \<and> unparse_content_stream sample_runtime
         [PySequence [PySequence [], PyObject (newName ''/X'')]] =
       Inl (type_error
              ''At content stream instruction 0, the operator is not of type pikepdf.Operator, bytes or str'')"
  by (simp add: unparse_content_stream_def unparse_fallback_def as_sequence_def
        resolve_operator_def cast_QPDFObjectHandle_def to_string_nat.simps digit_def)

section \<open>The round trip\<close>

lemma render_tokens_Cons:
  "ts \<noteq> [] \<Longrightarrow>
   render_tokens ub (t # ts) =
     ub t @ (if isOperator t then newline else '' '') @ render_tokens ub ts"
  by (cases ts) simp_all

lemma render_tokens_run:
  "list_all (\<lambda>v. \<not> isOperator v) vs \<Longrightarrow>
   render_tokens ub (vs @ newOperator op # rest) =
     concat (map (\<lambda>v. ub v @ '' '') vs) @ ub (newOperator op)
       @ (if rest = [] then [] else newline @ render_tokens ub rest)"
proof (induction vs)
  case Nil
  show ?case by (cases rest) simp_all
next
  case (Cons v vs)
  then show ?case by (simp add: render_tokens_Cons)
qed

lemma concat_runs_empty:
  "concat (map run_tokens rs) = [] \<longleftrightarrow> rs = []"
  by (cases rs) (auto simp: run_tokens_def)

lemma concat_runs_Cons:
  "concat (map run_tokens (r # rs)) = fst r @ newOperator (snd r) # concat (map run_tokens rs)"
  by (simp add: run_tokens_def)

lemma join_Cons: "xs \<noteq> [] \<Longrightarrow> join sep (x # xs) = x @ sep @ join sep xs"
  by (cases xs) simp_all

lemma render_tokens_runs:
  "list_all (\<lambda>r. list_all (\<lambda>v. \<not> isOperator v) (fst r)) rs \<Longrightarrow>
   render_tokens ub (concat (map run_tokens rs)) = join newline (map (run_bytes ub) rs)"
proof (induction rs)
  case Nil
  show ?case by simp
next
  case (Cons r rs)
  then have vs: "list_all (\<lambda>v. \<not> isOperator v) (fst r)"
    and IH: "render_tokens ub (concat (map run_tokens rs)) = join newline (map (run_bytes ub) rs)"
    by simp_all
  have step: "render_tokens ub (concat (map run_tokens (r # rs))) =
      run_bytes ub r @
        (if concat (map run_tokens rs) = [] then []
         else newline @ render_tokens ub (concat (map run_tokens rs)))"
    unfolding concat_runs_Cons run_bytes_def
    using render_tokens_run [OF vs] by simp
  show ?case
  proof (cases "rs = []")
    case True
    with step show ?thesis by simp
  next
    case False
    then have "concat (map run_tokens rs) \<noteq> []"
      using concat_runs_empty [of rs] by blast
    with step IH False show ?thesis
      by (simp add: join_Cons del: concat_eq_Nil_conv)
  qed
qed

lemma decompose_runs:
  "\<exists>rs trailing. T = concat (map run_tokens rs) @ trailing
      \<and> list_all (\<lambda>r. list_all (\<lambda>v. \<not> isOperator v) (fst r)) rs
      \<and> list_all (\<lambda>v. \<not> isOperator v) trailing"
proof (induction T rule: rev_induct)
  case Nil
  show ?case
    by (rule exI [of _ "[]"], rule exI [of _ "[]"]) simp
next
  case (snoc t T)
  then obtain rs trailing where T: "T = concat (map run_tokens rs) @ trailing"
    and rs: "list_all (\<lambda>r. list_all (\<lambda>v. \<not> isOperator v) (fst r)) rs"
    and tr: "list_all (\<lambda>v. \<not> isOperator v) trailing"
    by blast
  show ?case
  proof (cases "isOperator t")
    case True
    then obtain op where t: "t = newOperator op"
      by (cases t) simp_all
    have "T @ [t] = concat (map run_tokens (rs @ [(trailing, op)])) @ []"
      using T t by (simp add: run_tokens_def)
    moreover have "list_all (\<lambda>r. list_all (\<lambda>v. \<not> isOperator v) (fst r)) (rs @ [(trailing, op)])"
      using rs tr by simp
    ultimately show ?thesis
      by (intro exI [of _ "rs @ [(trailing, op)]"] exI [of _ "[]"]) simp
  next
    case False
    with T rs tr show ?thesis
      by (intro exI [of _ rs] exI [of _ "trailing @ [t]"]) simp
  qed
qed

lemma well_formed_stream_runs:
  assumes "T = [] \<or> isOperator (last T)"
  shows "\<exists>rs. T = concat (map run_tokens rs)
      \<and> list_all (\<lambda>r. list_all (\<lambda>v. \<not> isOperator v) (fst r)) rs"
proof -
  obtain rs trailing where T: "T = concat (map run_tokens rs) @ trailing"
    and rs: "list_all (\<lambda>r. list_all (\<lambda>v. \<not> isOperator v) (fst r)) rs"
    and tr: "list_all (\<lambda>v. \<not> isOperator v) trailing"
    using decompose_runs by blast
  have "trailing = []"
  proof (rule ccontr)
    assume ne: "trailing \<noteq> []"
    then have "last T = last trailing" "T \<noteq> []" using T by simp_all
    moreover have "\<not> isOperator (last trailing)"
      using tr ne by (simp add: list_all_iff)
    ultimately show False using assms by simp
  qed
  with T rs show ?thesis by auto
qed

lemma runs_not_BI:
  assumes "list_all (\<lambda>t. \<not> inline_image_marker t) (concat (map run_tokens rs))"
  shows "list_all (\<lambda>r. snd r \<noteq> ''BI'') rs"
  using assms
  by (induction rs) (auto simp: run_tokens_def inline_image_marker_def)

lemma serialize_runs:
  assumes "list_all (\<lambda>r. list_all (\<lambda>v. \<not> isOperator v) (fst r)) rs"
    and "list_all (\<lambda>r. snd r \<noteq> ''BI'') rs"
  shows "serialize_grouped rt (concat (map run_tokens rs)) =
           Inr (join newline (map (run_bytes (unparseBinary rt)) rs))"
proof -
  let ?g0 = "new_OperandGrouper []"
  let ?T = "concat (map run_tokens rs)"
  have wf: "list_all (\<lambda>r. list_all (\<lambda>v. \<not> isOperator v) (fst r) \<and> snd r \<noteq> ''BI'') rs"
    using assms by (simp add: list_all_iff)
  have g: "handleObjects ?g0 ?T =
          Inr (?g0\<lparr>count := count ?g0 + length ?T,
                   instructions := instructions ?g0 @ map run_instruction rs\<rparr>)"
    by (rule handleObjects_runs) (simp_all add: new_OperandGrouper_def wf)
  have items: "map run_instruction rs =
      map PyInstruction (map (\<lambda>r. \<lparr>operands = fst r, operator = newOperator (snd r)\<rparr>) rs)"
    by (simp add: run_instruction_def)
  have bytes: "map (write_csi rt [])
         (map (\<lambda>r. \<lparr>operands = fst r, operator = newOperator (snd r)\<rparr>) rs) =
       map (run_bytes (unparseBinary rt)) rs"
    by (simp add: write_csi_eq run_bytes_def)
  have "unparse_content_stream rt (map run_instruction rs) =
          Inr (join newline (map (run_bytes (unparseBinary rt)) rs))"
    unfolding items unparse_content_stream_def unparse_loop_instructions bytes by simp
  then show ?thesis
    unfolding serialize_grouped_def g
    by (simp add: handleEOF_def getInstructions_def new_OperandGrouper_def)
qed

text \<open>
  C1 (as amended). For every token stream without BI, ID and EI operators that is empty
  or ends with an operator, grouping it with an empty whitelist and serializing the
  instructions gives the whitespace-normalized rendering of the stream: the byte form
  of every token, one space after each operand, one newline between instructions, the
  operator last in each instruction. (Operands after the last operator are not part of
  any instruction and are not written.)
\<close>

theorem round_trip_well_formed:
  assumes "list_all (\<lambda>t. \<not> inline_image_marker t) T"
    and "T = [] \<or> isOperator (last T)"
  shows "serialize_grouped rt T = Inr (render_tokens (unparseBinary rt) T)"
proof -
  obtain rs where T: "T = concat (map run_tokens rs)"
    and rs: "list_all (\<lambda>r. list_all (\<lambda>v. \<not> isOperator v) (fst r)) rs"
    using well_formed_stream_runs [OF assms(2)] by blast
  have "list_all (\<lambda>r. snd r \<noteq> ''BI'') rs"
    using assms(1) unfolding T by (rule runs_not_BI)
  with rs show ?thesis
    unfolding T by (simp add: serialize_runs render_tokens_runs)
qed

theorem round_trip_well_formed_witness:
  "serialize_grouped sample_runtime
     [newInteger 1, newInteger 2, newOperator ''m'', newOperator ''h'',
      newName ''/F1'', newInteger 12, newOperator ''Tf''] =
   Inr (''1 2 m'' @ newline @ ''h'' @ newline @ ''/F1 12 Tf'')"
  using round_trip_well_formed
    [of "[newInteger 1, newInteger 2, newOperator ''m'', newOperator ''h'',
          newName ''/F1'', newInteger 12, newOperator ''Tf'']" sample_runtime]
  by (simp add: inline_image_marker_def sample_runtime_def to_string_def
        to_string_nat.simps digit_def)

theorem round_trip_counterexample:
  "list_all (\<lambda>t. \<not> inline_image_marker t) [newOperator ''h'', newInteger 1]
   \<and> serialize_grouped sample_runtime [newOperator ''h'', newInteger 1] \<noteq>
       Inr (render_tokens (unparseBinary sample_runtime) [newOperator ''h'', newInteger 1])"
  by (simp add: serialize_grouped_def new_OperandGrouper_def handleObject_operand
        handleObject_operator_plain handleEOF_def getInstructions_def
        unparse_content_stream_def write_csi_def sample_runtime_def inline_image_marker_def
        to_string_def to_string_nat.simps digit_def newline_def)

end
